theory Spec2Isabelle
  imports Main "HOL-Library.Sublist" "HOL-Library.AList"
begin

section \<open>Values, exceptions and the external collaborators\<close>

text \<open>
  \<^verbatim>\<open>node.py\<close> is an adapter: every method of \<^verbatim>\<open>DockerNode\<close> is a straight-line sequence
  of calls into the docker client and into the callable interface of the base node. The
  values that cross that boundary are Python objects; the ones the code inspects are
  dictionaries subscripted with a string key.
\<close>

datatype pyval =
    PNone
  | PBool bool
  | PInt int
  | PStr string
  | PDict "(string \<times> pyval) list"

text \<open>
  An exception is a value. \<^verbatim>\<open>KeyError\<close> and \<^verbatim>\<open>TypeError\<close> are the two the code can raise
  by itself (a subscript); \<^verbatim>\<open>External\<close> stands for whatever a collaborator raises.
\<close>

datatype exn =
    KeyError string
  | TypeError
  | External string

text \<open>\<^verbatim>\<open>v[k]\<close> for a string key: only a dictionary can be subscripted that way.\<close>

fun subscript :: "pyval \<Rightarrow> string \<Rightarrow> exn + pyval" where
  "subscript (PDict kvs) k = (case map_of kvs k of None \<Rightarrow> Inl (KeyError k) | Some v \<Rightarrow> Inr v)"
| "subscript _ k = Inl TypeError"

text \<open>
  The calls that leave the component: the base constructor, the docker client
  (\<^verbatim>\<open>self._client\<close>) and the shell execution of the base node (\<^verbatim>\<open>self(cmd, shell=...)\<close>).
\<close>

datatype rt_call =
    BaseInit string
  | NewClient
  | CreateHostConfig bool string pyval
  | CreateContainer string string string bool bool pyval
  | Start pyval
  | InspectContainer pyval
  | Stop pyval
  | Wait pyval
  | RemoveContainer pyval
  | Pause pyval
  | Unpause pyval
  | Shell string string

type_synonym trace = "rt_call list"

text \<open>
  The collaborators are a parameter: given the calls issued so far and the call being
  made, they answer with a value or raise.
\<close>

type_synonym runtime = "trace \<Rightarrow> rt_call \<Rightarrow> exn + pyval"

section \<open>Programs over the trace and the object\<close>

type_synonym ('s, 'a) prog = "trace \<times> 's \<Rightarrow> (trace \<times> 's) \<times> (exn + 'a)"

definition ret :: "'a \<Rightarrow> ('s, 'a) prog" where
  "ret v = (\<lambda>s. (s, Inr v))"

definition bnd :: "('s, 'a) prog \<Rightarrow> ('a \<Rightarrow> ('s, 'b) prog) \<Rightarrow> ('s, 'b) prog" where
  "bnd m f = (\<lambda>s. case m s of (s', Inl e) \<Rightarrow> (s', Inl e) | (s', Inr v) \<Rightarrow> f v s')"

definition invoke :: "runtime \<Rightarrow> rt_call \<Rightarrow> ('s, pyval) prog" where
  "invoke rt c = (\<lambda>(tr, s). ((tr @ [c], s), rt tr c))"

definition lift :: "exn + 'a \<Rightarrow> ('s, 'a) prog" where
  "lift r = (\<lambda>s. (s, r))"

definition get_self :: "('s, 's) prog" where
  "get_self = (\<lambda>(tr, s). ((tr, s), Inr s))"

definition modify_self :: "('s \<Rightarrow> 's) \<Rightarrow> ('s, pyval) prog" where
  "modify_self f = (\<lambda>(tr, s). ((tr, f s), Inr PNone))"

section \<open>The node\<close>

record docker_node =
  node_identifier :: string
  ports :: "(string \<times> string) list"
  pid :: pyval
  node_image :: string
  command :: string
  host_config :: pyval
  container_id :: pyval

record biport =
  bp_identifier :: pyval
  bp_metadata :: "string \<rightharpoonup> pyval"

subsection \<open>\<^verbatim>\<open>str(id(self))\<close> and the container name\<close>

definition digit_char :: "nat \<Rightarrow> char" where
  "digit_char d = char_of (48 + d)"

fun digits :: "nat \<Rightarrow> string" where
  "digits n = (if n < 10 then [digit_char n] else digits (n div 10) @ [digit_char (n mod 10)])"

definition str_int :: "int \<Rightarrow> string" where
  "str_int i = (if i < 0 then CHR ''-'' # digits (nat (- i)) else digits (nat i))"

text \<open>\<^verbatim>\<open>'{}_{}'.format(identifier, str(id(self)))\<close>\<close>

definition container_name :: "string \<Rightarrow> int \<Rightarrow> string" where
  "container_name ident self_id = ident @ ''_'' @ str_int self_id"

subsection \<open>\<^verbatim>\<open>__init__\<close>\<close>

text \<open>
  \<^verbatim>\<open>super(DockerNode, self).__init__(identifier, **kwargs)\<close> runs the base constructor
  \<^verbatim>\<open>CommonNode.__init__\<close> of the topology framework, which is not part of this
  repository. The call itself is one of the external calls (\<^verbatim>\<open>BaseInit\<close>); the registry
  it leaves in \<^verbatim>\<open>self.ports\<close> is the constant below.
\<close>

text \<open>
  Modelled from the spec: the \<^verbatim>\<open>ports\<close> registry after the base constructor (section 3,
  ``populated incrementally as the topology framework notifies the node of newly attached
  ports''): it starts empty.
\<close>

definition base_ports :: "(string \<times> string) list" where
  "base_ports = []"

text \<open>
  The object under construction is handed out only when \<^verbatim>\<open>__init__\<close> returns, so a
  failing run yields no node.
\<close>

definition DockerNode_init ::
  "runtime \<Rightarrow> int \<Rightarrow> string \<Rightarrow> string \<Rightarrow> string \<Rightarrow> pyval \<Rightarrow> string \<Rightarrow> (unit, docker_node) prog" where
  "DockerNode_init rt self_id ident img cmd binds network_mode =
     bnd (invoke rt (BaseInit ident)) (\<lambda>_.
     bnd (invoke rt NewClient) (\<lambda>_.
     bnd (invoke rt (CreateHostConfig True network_mode binds)) (\<lambda>hc.
     bnd (invoke rt (CreateContainer img cmd (container_name ident self_id) True True hc)) (\<lambda>r.
     bnd (lift (subscript r ''Id'')) (\<lambda>cid.
     ret \<lparr> node_identifier = ident, ports = base_ports, pid = PNone, node_image = img,
           command = cmd, host_config = hc, container_id = cid \<rparr>)))))"

text \<open>The defaults of the signature: \<^verbatim>\<open>image='ubuntu', command='bash', binds=None, network_mode='none'\<close>.\<close>

definition DockerNode_init_default :: "runtime \<Rightarrow> int \<Rightarrow> string \<Rightarrow> (unit, docker_node) prog" where
  "DockerNode_init_default rt self_id ident =
     DockerNode_init rt self_id ident ''ubuntu'' ''bash'' PNone ''none''"

subsection \<open>The notification hooks\<close>

text \<open>\<^verbatim>\<open>return biport.metadata.get('label', biport.identifier)\<close>\<close>

definition notify_add_biport :: "'n \<Rightarrow> biport \<Rightarrow> (docker_node, pyval) prog" where
  "notify_add_biport node bp =
     ret (case bp_metadata bp ''label'' of Some v \<Rightarrow> v | None \<Rightarrow> bp_identifier bp)"

definition notify_add_bilink :: "'p \<Rightarrow> 'l \<Rightarrow> (docker_node, pyval) prog" where
  "notify_add_bilink nodeport bilink = ret PNone"

definition notify_post_build :: "(docker_node, pyval) prog" where
  "notify_post_build = ret PNone"

subsection \<open>Lifecycle\<close>

definition start :: "runtime \<Rightarrow> (docker_node, pyval) prog" where
  "start rt =
     bnd get_self (\<lambda>self.
     bnd (invoke rt (Start (container_id self))) (\<lambda>_.
     bnd (invoke rt (InspectContainer (container_id self))) (\<lambda>r.
     bnd (lift (subscript r ''State'')) (\<lambda>st.
     bnd (lift (subscript st ''Pid'')) (\<lambda>p.
     modify_self (\<lambda>n. n\<lparr>pid := p\<rparr>))))))"

definition stop :: "runtime \<Rightarrow> (docker_node, pyval) prog" where
  "stop rt =
     bnd get_self (\<lambda>self.
     bnd (invoke rt (Stop (container_id self))) (\<lambda>_.
     bnd (invoke rt (Wait (container_id self))) (\<lambda>_.
     bnd (invoke rt (RemoveContainer (container_id self))) (\<lambda>_.
     ret PNone))))"

text \<open>
  \<^verbatim>\<open>iface = self.ports[portlbl]\<close>, then
  \<^verbatim>\<open>self('ip link set dev {} {}'.format(iface, 'up' if state else 'down'), shell='bash')\<close>.
\<close>

definition ip_link_cmd :: "string \<Rightarrow> bool \<Rightarrow> string" where
  "ip_link_cmd iface state = ''ip link set dev '' @ iface @ '' '' @ (if state then ''up'' else ''down'')"

definition port_state :: "runtime \<Rightarrow> string \<Rightarrow> bool \<Rightarrow> (docker_node, pyval) prog" where
  "port_state rt portlbl state =
     bnd get_self (\<lambda>self.
     bnd (lift (case map_of (ports self) portlbl of
                  None \<Rightarrow> Inl (KeyError portlbl) | Some iface \<Rightarrow> Inr iface)) (\<lambda>iface.
     bnd (invoke rt (Shell (ip_link_cmd iface state) ''bash'')) (\<lambda>_.
     ret PNone)))"

text \<open>\<^verbatim>\<open>for portlbl in self.ports: self.port_state(portlbl, state)\<close>\<close>

fun for_ports :: "runtime \<Rightarrow> bool \<Rightarrow> string list \<Rightarrow> (docker_node, pyval) prog" where
  "for_ports rt state [] = ret PNone"
| "for_ports rt state (portlbl # rest) =
     bnd (port_state rt portlbl state) (\<lambda>_. for_ports rt state rest)"

definition pause :: "runtime \<Rightarrow> (docker_node, pyval) prog" where
  "pause rt =
     bnd get_self (\<lambda>self.
     bnd (for_ports rt False (map fst (ports self))) (\<lambda>_.
     bnd (invoke rt (Pause (container_id self))) (\<lambda>_.
     ret PNone)))"

definition unpause :: "runtime \<Rightarrow> (docker_node, pyval) prog" where
  "unpause rt =
     bnd get_self (\<lambda>self.
     bnd (invoke rt (Unpause (container_id self))) (\<lambda>_.
     bnd (for_ports rt True (map fst (ports self))) (\<lambda>_.
     ret PNone)))"

subsection \<open>The methods as the framework calls them\<close>

text \<open>
  The topology framework drives a node by calling its methods; between two calls it may
  record an interface name in the registry (\<^verbatim>\<open>ports[label] = iface\<close>: an existing key
  keeps its place, a new one goes last). An exception of one call does not prevent the
  caller from making the next.
\<close>

datatype node_method =
    M_notify_add_biport biport
  | M_notify_add_bilink
  | M_notify_post_build
  | M_start
  | M_stop
  | M_pause
  | M_unpause
  | M_port_state string bool

fun call_method :: "runtime \<Rightarrow> node_method \<Rightarrow> (docker_node, pyval) prog" where
  "call_method rt (M_notify_add_biport bp) = notify_add_biport () bp"
| "call_method rt M_notify_add_bilink = notify_add_bilink () ()"
| "call_method rt M_notify_post_build = notify_post_build"
| "call_method rt M_start = start rt"
| "call_method rt M_stop = stop rt"
| "call_method rt M_pause = pause rt"
| "call_method rt M_unpause = unpause rt"
| "call_method rt (M_port_state portlbl state) = port_state rt portlbl state"

datatype step = Invoke node_method | RecordPort string string

fun run_step :: "runtime \<Rightarrow> step \<Rightarrow> trace \<times> docker_node \<Rightarrow> trace \<times> docker_node" where
  "run_step rt (Invoke m) s = fst (call_method rt m s)"
| "run_step rt (RecordPort portlbl iface) (tr, self) =
     (tr, self\<lparr>ports := AList.update portlbl iface (ports self)\<rparr>)"

fun run_steps :: "runtime \<Rightarrow> step list \<Rightarrow> trace \<times> docker_node \<Rightarrow> trace \<times> docker_node" where
  "run_steps rt [] s = s"
| "run_steps rt (x # xs) s = run_steps rt xs (run_step rt x s)"

subsection \<open>Sample collaborators and a sample node\<close>

text \<open>A runtime in which every call succeeds, and one that raises at a chosen call.\<close>

fun docker_ok :: runtime where
  "docker_ok tr (CreateHostConfig p nm b) =
     Inr (PDict [(''Privileged'', PBool p), (''NetworkMode'', PStr nm), (''Binds'', b)])"
| "docker_ok tr (CreateContainer img cmd name d t hc) = Inr (PDict [(''Id'', PStr ''c0ffee'')])"
| "docker_ok tr (InspectContainer cid) = Inr (PDict [(''State'', PDict [(''Pid'', PInt 4242)])])"
| "docker_ok tr c = Inr PNone"

definition failing_at :: "rt_call \<Rightarrow> exn \<Rightarrow> runtime" where
  "failing_at c0 e = (\<lambda>tr c. if c = c0 then Inl e else docker_ok tr c)"

definition n1 :: docker_node where
  "n1 = \<lparr> node_identifier = ''n1'', ports = [(''p1'', ''eth1''), (''p2'', ''eth2'')],
          pid = PNone, node_image = ''ubuntu'', command = ''bash'',
          host_config = PDict [(''Privileged'', PBool True), (''NetworkMode'', PStr ''none''),
                               (''Binds'', PNone)],
          container_id = PStr ''c0ffee'' \<rparr>"

subsection \<open>Stopping at the first failure\<close>

text \<open>
  A program stops at the first failure when its trace only grows and, whenever a call it
  issued raised, that exception is its outcome and that call is the last one it issued.
\<close>

definition fails_fast :: "runtime \<Rightarrow> ('s, 'a) prog \<Rightarrow> bool" where
  "fails_fast rt p \<longleftrightarrow>
     (\<forall>tr s. prefix tr (fst (fst (p (tr, s)))) \<and>
        (\<forall>h c e. prefix tr h \<and> prefix (h @ [c]) (fst (fst (p (tr, s)))) \<and> rt h c = Inl e \<longrightarrow>
           snd (p (tr, s)) = Inl e \<and> fst (fst (p (tr, s))) = h @ [c]))"

section \<open>Running a program step by step\<close>

lemma bnd_invoke:
  "bnd (invoke rt c) f (tr, s) =
     (case rt tr c of Inl e \<Rightarrow> ((tr @ [c], s), Inl e) | Inr v \<Rightarrow> f v (tr @ [c], s))"
  by (simp add: bnd_def invoke_def split: sum.splits)

lemma bnd_get_self: "bnd get_self f (tr, s) = f s (tr, s)"
  by (simp add: bnd_def get_self_def)

lemma bnd_lift:
  "bnd (lift r) f s = (case r of Inl e \<Rightarrow> (s, Inl e) | Inr v \<Rightarrow> f v s)"
  by (simp add: bnd_def lift_def split: sum.splits)

lemma bnd_ret: "bnd (ret v) f s = f v s"
  by (simp add: bnd_def ret_def)

lemmas run_simps = bnd_invoke bnd_get_self bnd_lift bnd_ret

section \<open>The port notification hook\<close>

text \<open>
  C1. For every biport, \<^verbatim>\<open>notify_add_biport\<close> returns the value stored under the key
  \<^verbatim>\<open>'label'\<close> of the biport's metadata when that key is present and the biport's
  identifier otherwise; in both cases it raises nothing, issues no call and leaves the
  node as it was.
\<close>

theorem notify_add_biport_label:
  "notify_add_biport node bp (tr, self) =
     ((tr, self),
      Inr (if ''label'' \<in> dom (bp_metadata bp) then the (bp_metadata bp ''label'')
           else bp_identifier bp))"
  by (auto simp: notify_add_biport_def ret_def split: option.splits)

section \<open>Stopping\<close>

text \<open>
  C2. \<^verbatim>\<open>stop\<close> issues stop, wait and remove on the container id, in that order, and the
  first of them that raises ends the sequence with that exception: when stop raises,
  neither wait nor remove is issued; when wait raises, remove is not issued; when none
  raises, exactly the three calls are issued. The node itself is never changed.
\<close>

theorem stop_order:
  "(\<forall>e. rt tr (Stop (container_id self)) = Inl e \<longrightarrow>
      stop rt (tr, self) = ((tr @ [Stop (container_id self)], self), Inl e)) \<and>
   (\<forall>v e. rt tr (Stop (container_id self)) = Inr v \<and>
      rt (tr @ [Stop (container_id self)]) (Wait (container_id self)) = Inl e \<longrightarrow>
      stop rt (tr, self) =
        ((tr @ [Stop (container_id self), Wait (container_id self)], self), Inl e)) \<and>
   (\<forall>v w e. rt tr (Stop (container_id self)) = Inr v \<and>
      rt (tr @ [Stop (container_id self)]) (Wait (container_id self)) = Inr w \<and>
      rt (tr @ [Stop (container_id self), Wait (container_id self)])
         (RemoveContainer (container_id self)) = Inl e \<longrightarrow>
      stop rt (tr, self) =
        ((tr @ [Stop (container_id self), Wait (container_id self),
                RemoveContainer (container_id self)], self), Inl e)) \<and>
   (\<forall>v w x. rt tr (Stop (container_id self)) = Inr v \<and>
      rt (tr @ [Stop (container_id self)]) (Wait (container_id self)) = Inr w \<and>
      rt (tr @ [Stop (container_id self), Wait (container_id self)])
         (RemoveContainer (container_id self)) = Inr x \<longrightarrow>
      stop rt (tr, self) =
        ((tr @ [Stop (container_id self), Wait (container_id self),
                RemoveContainer (container_id self)], self), Inr PNone))"
  by (simp add: stop_def run_simps ret_def)

theorem stop_order_witness:
  "stop (failing_at (Stop (PStr ''c0ffee'')) (External ''gone'')) ([], n1) =
     (([Stop (PStr ''c0ffee'')], n1), Inl (External ''gone'')) \<and>
   stop (failing_at (Wait (PStr ''c0ffee'')) (External ''gone'')) ([], n1) =
     (([Stop (PStr ''c0ffee''), Wait (PStr ''c0ffee'')], n1), Inl (External ''gone'')) \<and>
   stop (failing_at (RemoveContainer (PStr ''c0ffee'')) (External ''busy'')) ([], n1) =
     (([Stop (PStr ''c0ffee''), Wait (PStr ''c0ffee''), RemoveContainer (PStr ''c0ffee'')], n1),
      Inl (External ''busy'')) \<and>
   stop docker_ok ([], n1) =
     (([Stop (PStr ''c0ffee''), Wait (PStr ''c0ffee''), RemoveContainer (PStr ''c0ffee'')], n1),
      Inr PNone)"
  using stop_order [of "failing_at (Stop (PStr ''c0ffee'')) (External ''gone'')" "[]" n1]
    stop_order [of "failing_at (Wait (PStr ''c0ffee'')) (External ''gone'')" "[]" n1]
    stop_order [of "failing_at (RemoveContainer (PStr ''c0ffee'')) (External ''busy'')" "[]" n1]
    stop_order [of docker_ok "[]" n1]
  by (simp add: failing_at_def n1_def)

section \<open>Interface state\<close>

text \<open>
  C5. For a label present in \<^verbatim>\<open>ports\<close>, \<^verbatim>\<open>port_state\<close> executes exactly one command with
  the shell \<^verbatim>\<open>bash\<close>: \<^verbatim>\<open>ip link set dev <iface> up\<close> when the state is true and
  \<^verbatim>\<open>ip link set dev <iface> down\<close> when it is false, with the interface recorded for the
  label; whatever the command raises is the outcome. For a label that is not present it
  raises \<^verbatim>\<open>KeyError\<close> and issues no command.
\<close>

theorem port_state_command:
  "(\<forall>iface. map_of (ports self) portlbl = Some iface \<longrightarrow>
      port_state rt portlbl state (tr, self) =
        ((tr @ [Shell (''ip link set dev '' @ iface @ (if state then '' up'' else '' down'')) ''bash''],
          self),
         (case rt tr (Shell (''ip link set dev '' @ iface @ (if state then '' up'' else '' down''))
                        ''bash'') of
            Inl e \<Rightarrow> Inl e | Inr v \<Rightarrow> Inr PNone))) \<and>
   (map_of (ports self) portlbl = None \<longrightarrow>
      port_state rt portlbl state (tr, self) = ((tr, self), Inl (KeyError portlbl)))"
  by (simp add: port_state_def run_simps ret_def ip_link_cmd_def split: sum.splits)

theorem port_state_command_witness:
  "port_state docker_ok ''p1'' True ([], n1) =
     (([Shell ''ip link set dev eth1 up'' ''bash''], n1), Inr PNone) \<and>
   port_state docker_ok ''p2'' False ([], n1) =
     (([Shell ''ip link set dev eth2 down'' ''bash''], n1), Inr PNone) \<and>
   port_state docker_ok ''p9'' True ([], n1) = (([], n1), Inl (KeyError ''p9''))"
  using port_state_command [of n1 "''p1''" docker_ok True "[]"]
    port_state_command [of n1 "''p2''" docker_ok False "[]"]
    port_state_command [of n1 "''p9''" docker_ok True "[]"]
  by (simp add: n1_def)

section \<open>Starting\<close>



section \<open>Pausing and unpausing\<close>

subsection \<open>The loop over the registry\<close>

lemma port_state_run:
  "port_state rt l st (tr, s) =
     (case map_of (ports s) l of
        None \<Rightarrow> ((tr, s), Inl (KeyError l))
      | Some iface \<Rightarrow>
          ((tr @ [Shell (ip_link_cmd iface st) ''bash''], s),
           (case rt tr (Shell (ip_link_cmd iface st) ''bash'') of
              Inl e \<Rightarrow> Inl e | Inr v \<Rightarrow> Inr PNone)))"
  by (simp add: port_state_def run_simps ret_def split: option.splits sum.splits)

lemma for_ports_node: "snd (fst (for_ports rt st ls (tr, s))) = s"
proof (induction ls arbitrary: tr)
  case Nil
  show ?case by (simp add: ret_def)
next
  case (Cons l ls)
  show ?case
    by (simp add: bnd_def port_state_run Cons.IH split: option.splits sum.splits)
qed

lemma for_ports_success:
  assumes "\<forall>p \<in> set ps. map_of (ports s) (fst p) = Some (snd p)"
    and "for_ports rt st (map fst ps) (tr, s) = ((tr', s'), Inr v)"
  shows "tr' = tr @ map (\<lambda>p. Shell (ip_link_cmd (snd p) st) ''bash'') ps"
  using assms
proof (induction ps arbitrary: tr)
  case Nil
  then show ?case by (simp add: ret_def)
next
  case (Cons p ps)
  from Cons.prems(1) have here: "map_of (ports s) (fst p) = Some (snd p)"
    and rest: "\<forall>q \<in> set ps. map_of (ports s) (fst q) = Some (snd q)"
    by simp_all
  from Cons.prems(2) here
  have "for_ports rt st (map fst ps) (tr @ [Shell (ip_link_cmd (snd p) st) ''bash''], s)
          = ((tr', s'), Inr v)"
    by (simp add: bnd_def port_state_run split: sum.splits)
  from Cons.IH [OF rest this] show ?case by simp
qed

lemma for_ports_prefix:
  assumes "\<forall>p \<in> set ps. map_of (ports s) (fst p) = Some (snd p)"
  shows "prefix tr (fst (fst (for_ports rt st (map fst ps) (tr, s)))) \<and>
         prefix (fst (fst (for_ports rt st (map fst ps) (tr, s))))
           (tr @ map (\<lambda>p. Shell (ip_link_cmd (snd p) st) ''bash'') ps)"
  using assms
proof (induction ps arbitrary: tr)
  case Nil
  show ?case by (simp add: ret_def)
next
  case (Cons p ps)
  from Cons.prems have here: "map_of (ports s) (fst p) = Some (snd p)"
    and rest: "\<forall>q \<in> set ps. map_of (ports s) (fst q) = Some (snd q)"
    by simp_all
  let ?c = "Shell (ip_link_cmd (snd p) st) ''bash''"
  show ?case
  proof (cases "rt tr ?c")
    case (Inl e)
    then show ?thesis
      by (simp add: bnd_def port_state_run here)
  next
    case (Inr v)
    from Cons.IH [OF rest, of "tr @ [?c]"]
    have "prefix (tr @ [?c]) (fst (fst (for_ports rt st (map fst ps) (tr @ [?c], s))))"
      and up: "prefix (fst (fst (for_ports rt st (map fst ps) (tr @ [?c], s))))
         ((tr @ [?c]) @ map (\<lambda>p. Shell (ip_link_cmd (snd p) st) ''bash'') ps)"
      by simp_all
    then have "prefix tr (fst (fst (for_ports rt st (map fst ps) (tr @ [?c], s))))"
      using append_prefixD by blast
    with up Inr show ?thesis
      by (simp add: bnd_def port_state_run here)
  qed
qed

lemma for_ports_all_ok:
  assumes look: "\<forall>p \<in> set ps. map_of (ports s) (fst p) = Some (snd p)"
    and ok: "\<forall>k<length ps. \<exists>v.
      rt (tr @ take k (map (\<lambda>p. Shell (ip_link_cmd (snd p) st) ''bash'') ps))
         (map (\<lambda>p. Shell (ip_link_cmd (snd p) st) ''bash'') ps ! k) = Inr v"
  shows "for_ports rt st (map fst ps) (tr, s) =
           ((tr @ map (\<lambda>p. Shell (ip_link_cmd (snd p) st) ''bash'') ps, s), Inr PNone)"
  using assms
proof (induction ps arbitrary: tr)
  case Nil
  show ?case by (simp add: ret_def)
next
  case (Cons p ps)
  let ?f = "\<lambda>p. Shell (ip_link_cmd (snd p) st) ''bash''"
  from Cons.prems(1) have here: "map_of (ports s) (fst p) = Some (snd p)"
    and rest: "\<forall>q \<in> set ps. map_of (ports s) (fst q) = Some (snd q)"
    by simp_all
  from Cons.prems(2) [rule_format, of 0] obtain v where v: "rt tr (?f p) = Inr v"
    by auto
  have ok': "\<forall>k<length ps. \<exists>v. rt ((tr @ [?f p]) @ take k (map ?f ps)) (map ?f ps ! k) = Inr v"
  proof (intro allI impI)
    fix k
    assume "k < length ps"
    then have "Suc k < length (p # ps)" by simp
    from Cons.prems(2) [rule_format, OF this]
    show "\<exists>v. rt ((tr @ [?f p]) @ take k (map ?f ps)) (map ?f ps ! k) = Inr v"
      by simp
  qed
  from Cons.IH [OF rest ok']
  have "for_ports rt st (map fst ps) (tr @ [?f p], s) = (((tr @ [?f p]) @ map ?f ps, s), Inr PNone)" .
  with v here show ?case
    by (simp add: bnd_def port_state_run)
qed

lemma distinct_lookup:
  "distinct (map fst ps) \<Longrightarrow> \<forall>p \<in> set ps. map_of ps (fst p) = Some (snd p)"
  by simp

subsection \<open>\<^verbatim>\<open>pause\<close>\<close>

text \<open>
  C3. With N entries in \<^verbatim>\<open>ports\<close> (a dictionary: the labels are distinct), \<^verbatim>\<open>pause\<close>
  issues exactly N interface-down commands, one per entry and in the iteration order of
  the mapping, each the command \<^verbatim>\<open>port_state\<close> issues for that label with state false,
  and after them the single pause call on the container id: whenever the N commands
  succeed, the trace grows by exactly these N + 1 calls, the node is unchanged and the
  outcome is that of the pause call. Conversely a \<^verbatim>\<open>pause\<close> that returns normally has
  issued exactly that sequence; and whatever happens, the calls issued are an initial
  segment of it, so the pause call never precedes an interface-down command.
\<close>

theorem pause_downs_then_pauses:
  assumes "distinct (map fst (ports self))"
  shows "(\<forall>tr' self' v. pause rt (tr, self) = ((tr', self'), Inr v) \<longrightarrow>
            tr' = tr @ map (\<lambda>p. Shell (''ip link set dev '' @ snd p @ '' down'') ''bash'') (ports self)
                     @ [Pause (container_id self)] \<and>
            length tr' = length tr + length (ports self) + 1 \<and> self' = self) \<and>
         prefix tr (fst (fst (pause rt (tr, self)))) \<and>
         prefix (fst (fst (pause rt (tr, self))))
           (tr @ map (\<lambda>p. Shell (''ip link set dev '' @ snd p @ '' down'') ''bash'') (ports self)
               @ [Pause (container_id self)]) \<and>
         ((\<forall>k<length (ports self). \<exists>v.
             rt (tr @ take k
                   (map (\<lambda>p. Shell (''ip link set dev '' @ snd p @ '' down'') ''bash'') (ports self)))
                (map (\<lambda>p. Shell (''ip link set dev '' @ snd p @ '' down'') ''bash'') (ports self) ! k)
               = Inr v) \<longrightarrow>
          pause rt (tr, self) =
            ((tr @ map (\<lambda>p. Shell (''ip link set dev '' @ snd p @ '' down'') ''bash'') (ports self)
                 @ [Pause (container_id self)], self),
             (case rt (tr @ map (\<lambda>p. Shell (''ip link set dev '' @ snd p @ '' down'') ''bash'')
                                (ports self))
                      (Pause (container_id self)) of
                Inl e \<Rightarrow> Inl e | Inr w \<Rightarrow> Inr PNone)))"
proof -
  let ?downs = "map (\<lambda>p. Shell (ip_link_cmd (snd p) False) ''bash'') (ports self)"
  note look = distinct_lookup [OF assms]
  obtain tr1 s1 r1 where loop: "for_ports rt False (map fst (ports self)) (tr, self) = ((tr1, s1), r1)"
    by (metis surj_pair)
  have step: "bnd (for_ports rt False (map fst (ports self))) f (tr, self) =
      (case r1 of Inl e \<Rightarrow> ((tr1, s1), Inl e) | Inr v \<Rightarrow> f v (tr1, s1))"
    for f :: "pyval \<Rightarrow> (docker_node, pyval) prog"
    using loop by (simp add: bnd_def split: sum.splits)
  have s1: "s1 = self"
    using for_ports_node [of rt False "map fst (ports self)" tr self] loop by simp
  from for_ports_prefix [OF look, of tr rt False] loop
  have p1: "prefix tr tr1" and p2: "prefix tr1 (tr @ ?downs)" by simp_all
  from prefix_prefix [OF p2, of "[Pause (container_id self)]"]
  have p3: "prefix tr1 (tr @ ?downs @ [Pause (container_id self)])" by simp
  have main: "(\<forall>tr' self' v. pause rt (tr, self) = ((tr', self'), Inr v) \<longrightarrow>
            tr' = tr @ ?downs @ [Pause (container_id self)] \<and>
            length tr' = length tr + length (ports self) + 1 \<and> self' = self) \<and>
         prefix tr (fst (fst (pause rt (tr, self)))) \<and>
         prefix (fst (fst (pause rt (tr, self)))) (tr @ ?downs @ [Pause (container_id self)])"
  proof (cases r1)
    case (Inl e)
    with loop have "pause rt (tr, self) = ((tr1, s1), Inl e)"
      by (simp add: pause_def bnd_get_self step)
    with p1 p3 show ?thesis by simp
  next
    case (Inr v)
    with loop s1 have full: "tr1 = tr @ ?downs"
      using for_ports_success [OF look, of rt False tr tr1 s1 v] by simp
    from loop Inr s1
    have "pause rt (tr, self) =
        ((tr1 @ [Pause (container_id self)], self),
         (case rt tr1 (Pause (container_id self)) of Inl e \<Rightarrow> Inl e | Inr w \<Rightarrow> Inr PNone))"
      by (simp add: pause_def bnd_get_self step bnd_invoke ret_def split: sum.splits)
    with full show ?thesis by simp
  qed
  have all_ok: "pause rt (tr, self) =
        ((tr @ ?downs @ [Pause (container_id self)], self),
         (case rt (tr @ ?downs) (Pause (container_id self)) of
            Inl e \<Rightarrow> Inl e | Inr w \<Rightarrow> Inr PNone))"
    if ok: "\<forall>k<length (ports self). \<exists>v. rt (tr @ take k ?downs) (?downs ! k) = Inr v"
  proof -
    from for_ports_all_ok [OF look ok]
    have "for_ports rt False (map fst (ports self)) (tr, self) = ((tr @ ?downs, self), Inr PNone)" .
    with loop have "tr1 = tr @ ?downs" "s1 = self" "r1 = Inr PNone" by auto
    then show ?thesis
      by (simp add: pause_def bnd_get_self step bnd_invoke ret_def split: sum.splits)
  qed
  have dn: "?downs =
      map (\<lambda>p. Shell (''ip link set dev '' @ snd p @ '' down'') ''bash'') (ports self)"
    by (simp add: ip_link_cmd_def)
  from main all_ok show ?thesis
    unfolding dn by blast
qed

theorem pause_downs_then_pauses_witness:
  "distinct (map fst (ports n1)) \<and>
   pause docker_ok ([], n1) =
     (([Shell ''ip link set dev eth1 down'' ''bash'', Shell ''ip link set dev eth2 down'' ''bash'',
        Pause (PStr ''c0ffee'')], n1), Inr PNone) \<and>
   length [Shell ''ip link set dev eth1 down'' ''bash'', Shell ''ip link set dev eth2 down'' ''bash'',
        Pause (PStr ''c0ffee'')] = length ([] :: trace) + length (ports n1) + 1"
proof -
  have d: "distinct (map fst (ports n1))"
    by (simp add: n1_def)
  have ok: "\<forall>k<length (ports n1). \<exists>v.
      docker_ok ([] @ take k
          (map (\<lambda>p. Shell (''ip link set dev '' @ snd p @ '' down'') ''bash'') (ports n1)))
        (map (\<lambda>p. Shell (''ip link set dev '' @ snd p @ '' down'') ''bash'') (ports n1) ! k)
      = Inr v"
    by simp
  note pause_downs_then_pauses [OF d, of docker_ok "[]", THEN conjunct2, THEN conjunct2,
      THEN conjunct2, THEN mp, OF ok]
  then have run: "pause docker_ok ([], n1) =
     (([Shell ''ip link set dev eth1 down'' ''bash'', Shell ''ip link set dev eth2 down'' ''bash'',
        Pause (PStr ''c0ffee'')], n1), Inr PNone)"
    by (simp add: n1_def)
  note pause_downs_then_pauses [OF d, of docker_ok "[]", THEN conjunct1, rule_format, OF run]
  then have "length [Shell ''ip link set dev eth1 down'' ''bash'',
        Shell ''ip link set dev eth2 down'' ''bash'', Pause (PStr ''c0ffee'')]
      = length ([] :: trace) + length (ports n1) + 1"
    by (elim conjE)
  with d run show ?thesis
    by (intro conjI)
qed

subsection \<open>\<^verbatim>\<open>unpause\<close>\<close>

text \<open>
  C4. With N entries in \<^verbatim>\<open>ports\<close>, \<^verbatim>\<open>unpause\<close> issues the unpause call on the container
  id first, in every run; when that call and the N interface-up commands succeed, it
  returns normally having issued after it exactly N interface-up commands, one per entry
  in the iteration order of the mapping, and nothing else, with the node unchanged.
  Conversely an \<^verbatim>\<open>unpause\<close> that returns normally has issued exactly that sequence; and
  whatever happens, the calls issued are an initial segment of it, so no interface
  command precedes the unpause call.
\<close>

theorem unpause_then_ups:
  assumes "distinct (map fst (ports self))"
  shows "(\<forall>tr' self' v. unpause rt (tr, self) = ((tr', self'), Inr v) \<longrightarrow>
            tr' = tr @ Unpause (container_id self)
                     # map (\<lambda>p. Shell (''ip link set dev '' @ snd p @ '' up'') ''bash'') (ports self) \<and>
            length tr' = length tr + 1 + length (ports self) \<and> self' = self) \<and>
         prefix (tr @ [Unpause (container_id self)]) (fst (fst (unpause rt (tr, self)))) \<and>
         prefix (fst (fst (unpause rt (tr, self))))
           (tr @ Unpause (container_id self)
               # map (\<lambda>p. Shell (''ip link set dev '' @ snd p @ '' up'') ''bash'') (ports self)) \<and>
         ((\<exists>w. rt tr (Unpause (container_id self)) = Inr w) \<and>
          (\<forall>k<length (ports self). \<exists>v.
             rt (tr @ Unpause (container_id self) # take k
                   (map (\<lambda>p. Shell (''ip link set dev '' @ snd p @ '' up'') ''bash'') (ports self)))
                (map (\<lambda>p. Shell (''ip link set dev '' @ snd p @ '' up'') ''bash'') (ports self) ! k)
               = Inr v) \<longrightarrow>
          unpause rt (tr, self) =
            ((tr @ Unpause (container_id self)
                 # map (\<lambda>p. Shell (''ip link set dev '' @ snd p @ '' up'') ''bash'') (ports self),
              self), Inr PNone))"
proof -
  let ?ups = "map (\<lambda>p. Shell (ip_link_cmd (snd p) True) ''bash'') (ports self)"
  let ?u = "Unpause (container_id self)"
  note look = distinct_lookup [OF assms]
  have main: "(\<forall>tr' self' v. unpause rt (tr, self) = ((tr', self'), Inr v) \<longrightarrow>
            tr' = tr @ ?u # ?ups \<and>
            length tr' = length tr + 1 + length (ports self) \<and> self' = self) \<and>
         prefix (tr @ [?u]) (fst (fst (unpause rt (tr, self)))) \<and>
         prefix (fst (fst (unpause rt (tr, self)))) (tr @ ?u # ?ups)"
  proof (cases "rt tr ?u")
    case (Inl e)
    then have "unpause rt (tr, self) = ((tr @ [?u], self), Inl e)"
      by (simp add: unpause_def run_simps)
    then show ?thesis by simp
  next
    case (Inr w)
    obtain tr1 s1 r1
      where loop: "for_ports rt True (map fst (ports self)) (tr @ [?u], self) = ((tr1, s1), r1)"
      by (metis surj_pair)
    have step: "bnd (for_ports rt True (map fst (ports self))) f (tr @ [?u], self) =
        (case r1 of Inl e \<Rightarrow> ((tr1, s1), Inl e) | Inr v \<Rightarrow> f v (tr1, s1))"
      for f :: "pyval \<Rightarrow> (docker_node, pyval) prog"
      using loop by (simp add: bnd_def split: sum.splits)
    have s1: "s1 = self"
      using for_ports_node [of rt True "map fst (ports self)" "tr @ [?u]" self] loop by simp
    from for_ports_prefix [OF look, of "tr @ [?u]" rt True] loop
    have p1: "prefix (tr @ [?u]) tr1" and p2: "prefix tr1 (tr @ ?u # ?ups)" by simp_all
    have run: "unpause rt (tr, self) =
        ((tr1, self), (case r1 of Inl e \<Rightarrow> Inl e | Inr v \<Rightarrow> Inr PNone))"
      using Inr s1 by (simp add: unpause_def run_simps step ret_def split: sum.splits)
    show ?thesis
    proof (cases r1)
      case (Inl e)
      with run p1 p2 show ?thesis by simp
    next
      case r1: (Inr v)
      with loop s1 have "tr1 = tr @ ?u # ?ups"
        using for_ports_success [OF look, of rt True "tr @ [?u]" tr1 s1 v] by simp
      with run r1 show ?thesis by simp
    qed
  qed
  have all_ok: "unpause rt (tr, self) = ((tr @ ?u # ?ups, self), Inr PNone)"
    if w: "\<exists>w. rt tr ?u = Inr w"
      and ok: "\<forall>k<length (ports self). \<exists>v. rt (tr @ ?u # take k ?ups) (?ups ! k) = Inr v"
  proof -
    from w obtain w' where w': "rt tr ?u = Inr w'" ..
    from ok have ok': "\<forall>k<length (ports self). \<exists>v.
        rt ((tr @ [?u]) @ take k ?ups) (?ups ! k) = Inr v"
      by simp
    from for_ports_all_ok [OF look ok']
    have loop: "for_ports rt True (map fst (ports self)) (tr @ [?u], self) =
        (((tr @ [?u]) @ ?ups, self), Inr PNone)" .
    have "bnd (for_ports rt True (map fst (ports self))) f (tr @ [?u], self) =
        f PNone ((tr @ [?u]) @ ?ups, self)"
      for f :: "pyval \<Rightarrow> (docker_node, pyval) prog"
      using loop by (simp add: bnd_def)
    with w' show ?thesis
      by (simp add: unpause_def run_simps ret_def)
  qed
  have up: "?ups =
      map (\<lambda>p. Shell (''ip link set dev '' @ snd p @ '' up'') ''bash'') (ports self)"
    by (simp add: ip_link_cmd_def)
  from main all_ok show ?thesis
    unfolding up by blast
qed

theorem unpause_then_ups_witness:
  "distinct (map fst (ports n1)) \<and>
   unpause docker_ok ([], n1) =
     (([Unpause (PStr ''c0ffee''), Shell ''ip link set dev eth1 up'' ''bash'',
        Shell ''ip link set dev eth2 up'' ''bash''], n1), Inr PNone) \<and>
   length [Unpause (PStr ''c0ffee''), Shell ''ip link set dev eth1 up'' ''bash'',
        Shell ''ip link set dev eth2 up'' ''bash''] = length ([] :: trace) + 1 + length (ports n1)"
proof -
  have d: "distinct (map fst (ports n1))"
    by (simp add: n1_def)
  have ok: "(\<exists>w. docker_ok [] (Unpause (container_id n1)) = Inr w) \<and>
    (\<forall>k<length (ports n1). \<exists>v.
      docker_ok ([] @ Unpause (container_id n1) # take k
          (map (\<lambda>p. Shell (''ip link set dev '' @ snd p @ '' up'') ''bash'') (ports n1)))
        (map (\<lambda>p. Shell (''ip link set dev '' @ snd p @ '' up'') ''bash'') (ports n1) ! k)
      = Inr v)"
    by simp
  note unpause_then_ups [OF d, of docker_ok "[]", THEN conjunct2, THEN conjunct2,
      THEN conjunct2, THEN mp, OF ok]
  then have run: "unpause docker_ok ([], n1) =
     (([Unpause (PStr ''c0ffee''), Shell ''ip link set dev eth1 up'' ''bash'',
        Shell ''ip link set dev eth2 up'' ''bash''], n1), Inr PNone)"
    by (simp add: n1_def)
  note unpause_then_ups [OF d, of docker_ok "[]", THEN conjunct1, rule_format, OF run]
  then have "length [Unpause (PStr ''c0ffee''), Shell ''ip link set dev eth1 up'' ''bash'',
        Shell ''ip link set dev eth2 up'' ''bash''] = length ([] :: trace) + 1 + length (ports n1)"
    by (elim conjE)
  with d run show ?thesis
    by (intro conjI)
qed

section \<open>The decimal rendering of the instance id\<close>

declare digits.simps [simp del]

lemma digit_char_inj: "a < 10 \<Longrightarrow> b < 10 \<Longrightarrow> digit_char a = digit_char b \<Longrightarrow> a = b"
  by (simp add: digit_char_def)

lemma digit_char_not_minus: "d < 10 \<Longrightarrow> digit_char d \<noteq> CHR ''-''"
proof
  assume d: "d < 10" and eq: "digit_char d = CHR ''-''"
  from eq have "of_char (digit_char d) = (of_char (CHR ''-'') :: nat)" by simp
  with d show False by (simp add: digit_char_def)
qed

lemma digits_not_Nil: "digits n \<noteq> []"
  by (subst digits.simps) simp

lemma digits_last: "last (digits n) = digit_char (n mod 10)"
  by (subst digits.simps) simp

lemma digits_butlast: "butlast (digits n) = (if n < 10 then [] else digits (n div 10))"
  by (subst digits.simps) simp

lemma digits_hd_not_minus: "hd (digits n) \<noteq> CHR ''-''"
proof (induction n rule: digits.induct)
  case (1 n)
  show ?case
  proof (cases "n < 10")
    case True
    then show ?thesis
      by (subst digits.simps) (simp add: digit_char_not_minus)
  next
    case False
    with "1.IH" show ?thesis
      by (subst digits.simps) (simp add: digits_not_Nil)
  qed
qed

lemma digits_inj: "digits a = digits b \<Longrightarrow> a = b"
proof (induction a arbitrary: b rule: digits.induct)
  case (1 a)
  from "1.prems" have l: "digit_char (a mod 10) = digit_char (b mod 10)"
    using digits_last [of a] digits_last [of b] by simp
  then have m: "a mod 10 = b mod 10"
    by (intro digit_char_inj) simp_all
  from "1.prems" have bl: "butlast (digits a) = butlast (digits b)" by simp
  show ?case
  proof (cases "a < 10")
    case True
    with bl have "b < 10"
      using digits_not_Nil [of "b div 10"]
      by (auto simp: digits_butlast split: if_splits)
    with True m show ?thesis by simp
  next
    case False
    with bl have nb: "\<not> b < 10" and "digits (a div 10) = digits (b div 10)"
      using digits_not_Nil [of "a div 10"]
      by (auto simp: digits_butlast split: if_splits)
    with "1.IH" [OF False] have "a div 10 = b div 10" by simp
    with m show ?thesis
      by (metis div_mult_mod_eq)
  qed
qed

lemma str_int_inj: "str_int a = str_int b \<Longrightarrow> a = b"
proof -
  assume eq: "str_int a = str_int b"
  have neg: False if "x < 0" "0 \<le> y" "str_int x = str_int y" for x y
  proof -
    from that have "CHR ''-'' # digits (nat (- x)) = digits (nat y)"
      by (simp add: str_int_def)
    then have "hd (digits (nat y)) = CHR ''-''"
      by (metis list.sel(1))
    with digits_hd_not_minus show False by blast
  qed
  consider "a < 0" "b < 0" | "a < 0" "0 \<le> b" | "0 \<le> a" "b < 0" | "0 \<le> a" "0 \<le> b"
    by linarith
  then show "a = b"
  proof cases
    case 1
    with eq have "digits (nat (- a)) = digits (nat (- b))" by (simp add: str_int_def)
    then have "nat (- a) = nat (- b)" by (rule digits_inj)
    with 1 show ?thesis by simp
  next
    case 2
    with neg eq show ?thesis by blast
  next
    case 3
    with neg [of b a] eq show ?thesis by simp
  next
    case 4
    with eq have "digits (nat a) = digits (nat b)" by (simp add: str_int_def)
    then have "nat a = nat b" by (rule digits_inj)
    with 4 show ?thesis by simp
  qed
qed

section \<open>Construction\<close>

lemma init_success:
  assumes "DockerNode_init rt self_id ident img cmd binds nm (tr, ()) = ((tr', u), Inr node)"
  shows "\<exists>hc r.
         rt (tr @ [BaseInit ident, NewClient]) (CreateHostConfig True nm binds) = Inr hc \<and>
         rt (tr @ [BaseInit ident, NewClient, CreateHostConfig True nm binds])
            (CreateContainer img cmd (container_name ident self_id) True True hc) = Inr r \<and>
         tr' = tr @ [BaseInit ident, NewClient, CreateHostConfig True nm binds,
                     CreateContainer img cmd (container_name ident self_id) True True hc] \<and>
         subscript r ''Id'' = Inr (container_id node) \<and>
         host_config node = hc \<and> node_image node = img \<and> command node = cmd \<and>
         node_identifier node = ident \<and> pid node = PNone"
proof -
  from assms obtain a where a: "rt tr (BaseInit ident) = Inr a"
    by (cases "rt tr (BaseInit ident)") (simp_all add: DockerNode_init_def bnd_invoke)
  from assms a obtain b where b: "rt (tr @ [BaseInit ident]) NewClient = Inr b"
    by (cases "rt (tr @ [BaseInit ident]) NewClient")
      (simp_all add: DockerNode_init_def bnd_invoke)
  from assms a b obtain hc
    where hc: "rt (tr @ [BaseInit ident, NewClient]) (CreateHostConfig True nm binds) = Inr hc"
    by (cases "rt (tr @ [BaseInit ident, NewClient]) (CreateHostConfig True nm binds)")
      (simp_all add: DockerNode_init_def bnd_invoke)
  let ?cc = "CreateContainer img cmd (container_name ident self_id) True True hc"
  from assms a b hc obtain r
    where r: "rt (tr @ [BaseInit ident, NewClient, CreateHostConfig True nm binds]) ?cc = Inr r"
    by (cases "rt (tr @ [BaseInit ident, NewClient, CreateHostConfig True nm binds]) ?cc")
      (simp_all add: DockerNode_init_def bnd_invoke)
  from assms a b hc r obtain cid where cid: "subscript r ''Id'' = Inr cid"
    by (cases "subscript r ''Id''") (simp_all add: DockerNode_init_def bnd_invoke bnd_lift)
  from assms a b hc r cid
  have "tr' = tr @ [BaseInit ident, NewClient, CreateHostConfig True nm binds, ?cc]"
    and "node = \<lparr> node_identifier = ident, ports = [], pid = PNone, node_image = img,
                   command = cmd, host_config = hc, container_id = cid \<rparr>"
    by (simp_all add: DockerNode_init_def bnd_invoke bnd_lift ret_def base_ports_def)
  with hc r cid show ?thesis by simp
qed

lemma init_all_ok:
  assumes "rt tr (BaseInit ident) = Inr a"
    and "rt (tr @ [BaseInit ident]) NewClient = Inr b"
    and "rt (tr @ [BaseInit ident, NewClient]) (CreateHostConfig True nm binds) = Inr hc"
    and "rt (tr @ [BaseInit ident, NewClient, CreateHostConfig True nm binds])
            (CreateContainer img cmd (container_name ident self_id) True True hc) = Inr r"
    and "subscript r ''Id'' = Inr cid"
  shows "DockerNode_init rt self_id ident img cmd binds nm (tr, ()) =
     ((tr @ [BaseInit ident, NewClient, CreateHostConfig True nm binds,
             CreateContainer img cmd (container_name ident self_id) True True hc], ()),
      Inr \<lparr> node_identifier = ident, ports = base_ports, pid = PNone, node_image = img,
            command = cmd, host_config = hc, container_id = cid \<rparr>)"
  using assms by (simp add: DockerNode_init_def bnd_invoke bnd_lift ret_def)

lemma init_no_start:
  "Start cid \<in> set (fst (fst (DockerNode_init rt self_id ident img cmd binds nm (tr, ()))))
     \<Longrightarrow> Start cid \<in> set tr"
  by (auto simp: DockerNode_init_def bnd_invoke bnd_lift ret_def split: sum.splits)

text \<open>
  C7. Construction issues, after the base constructor and the creation of the client,
  exactly two runtime calls: the host configuration with privileged mode on and the
  given network mode and binds, then the creation of a container, detached and with a
  TTY, named \<^verbatim>\<open><identifier>_<str(id(self))>\<close>, running the given command on the given image
  with that host configuration. Whenever these calls succeed and the answer to the
  create call has an \<^verbatim>\<open>'Id'\<close>, construction returns a node whose container id is that
  value, with the given image and command, the host configuration returned, and the pid
  unset; conversely a construction that returns has issued exactly these calls. No run
  of the constructor, failing or not, issues a start call. The name is unique to the
  instance: two instance ids give the same name for an identifier only when they are
  equal.
\<close>

theorem init_creates_container:
  "(\<forall>tr' u node.
      DockerNode_init rt self_id ident img cmd binds nm (tr, ()) = ((tr', u), Inr node) \<longrightarrow>
      (\<exists>hc r.
         rt (tr @ [BaseInit ident, NewClient]) (CreateHostConfig True nm binds) = Inr hc \<and>
         rt (tr @ [BaseInit ident, NewClient, CreateHostConfig True nm binds])
            (CreateContainer img cmd (ident @ ''_'' @ str_int self_id) True True hc) = Inr r \<and>
         tr' = tr @ [BaseInit ident, NewClient, CreateHostConfig True nm binds,
                     CreateContainer img cmd (ident @ ''_'' @ str_int self_id) True True hc] \<and>
         subscript r ''Id'' = Inr (container_id node) \<and>
         host_config node = hc \<and> node_image node = img \<and> command node = cmd \<and>
         node_identifier node = ident \<and> pid node = PNone)) \<and>
   (\<forall>cid. Start cid \<in> set (fst (fst (DockerNode_init rt self_id ident img cmd binds nm (tr, ()))))
      \<longrightarrow> Start cid \<in> set tr) \<and>
   (\<forall>other. ident @ ''_'' @ str_int other = ident @ ''_'' @ str_int self_id \<longrightarrow> other = self_id) \<and>
   (\<forall>a b hc r cid.
      rt tr (BaseInit ident) = Inr a \<and>
      rt (tr @ [BaseInit ident]) NewClient = Inr b \<and>
      rt (tr @ [BaseInit ident, NewClient]) (CreateHostConfig True nm binds) = Inr hc \<and>
      rt (tr @ [BaseInit ident, NewClient, CreateHostConfig True nm binds])
         (CreateContainer img cmd (ident @ ''_'' @ str_int self_id) True True hc) = Inr r \<and>
      subscript r ''Id'' = Inr cid \<longrightarrow>
      (\<exists>node.
         DockerNode_init rt self_id ident img cmd binds nm (tr, ()) =
           ((tr @ [BaseInit ident, NewClient, CreateHostConfig True nm binds,
                   CreateContainer img cmd (ident @ ''_'' @ str_int self_id) True True hc], ()),
            Inr node) \<and>
         container_id node = cid \<and> host_config node = hc \<and> node_image node = img \<and>
         command node = cmd \<and> node_identifier node = ident \<and> pid node = PNone))"
proof (intro conjI allI impI)
  fix tr' u node
  assume "DockerNode_init rt self_id ident img cmd binds nm (tr, ()) = ((tr', u), Inr node)"
  from init_success [OF this]
  show "\<exists>hc r.
         rt (tr @ [BaseInit ident, NewClient]) (CreateHostConfig True nm binds) = Inr hc \<and>
         rt (tr @ [BaseInit ident, NewClient, CreateHostConfig True nm binds])
            (CreateContainer img cmd (ident @ ''_'' @ str_int self_id) True True hc) = Inr r \<and>
         tr' = tr @ [BaseInit ident, NewClient, CreateHostConfig True nm binds,
                     CreateContainer img cmd (ident @ ''_'' @ str_int self_id) True True hc] \<and>
         subscript r ''Id'' = Inr (container_id node) \<and>
         host_config node = hc \<and> node_image node = img \<and> command node = cmd \<and>
         node_identifier node = ident \<and> pid node = PNone"
    unfolding container_name_def .
next
  fix cid
  assume "Start cid \<in> set (fst (fst (DockerNode_init rt self_id ident img cmd binds nm (tr, ()))))"
  then show "Start cid \<in> set tr" by (rule init_no_start)
next
  fix other
  assume "ident @ ''_'' @ str_int other = ident @ ''_'' @ str_int self_id"
  then have "str_int other = str_int self_id" by simp
  then show "other = self_id" by (rule str_int_inj)
next
  fix a b hc r cid
  assume h: "rt tr (BaseInit ident) = Inr a \<and>
      rt (tr @ [BaseInit ident]) NewClient = Inr b \<and>
      rt (tr @ [BaseInit ident, NewClient]) (CreateHostConfig True nm binds) = Inr hc \<and>
      rt (tr @ [BaseInit ident, NewClient, CreateHostConfig True nm binds])
         (CreateContainer img cmd (ident @ ''_'' @ str_int self_id) True True hc) = Inr r \<and>
      subscript r ''Id'' = Inr cid"
  let ?node = "\<lparr> node_identifier = ident, ports = base_ports, pid = PNone, node_image = img,
                 command = cmd, host_config = hc, container_id = cid \<rparr>"
  from h have "DockerNode_init rt self_id ident img cmd binds nm (tr, ()) =
     ((tr @ [BaseInit ident, NewClient, CreateHostConfig True nm binds,
             CreateContainer img cmd (ident @ ''_'' @ str_int self_id) True True hc], ()),
      Inr ?node)"
    using init_all_ok [of rt tr ident a b nm binds hc img cmd self_id r cid]
    unfolding container_name_def by blast
  then have "DockerNode_init rt self_id ident img cmd binds nm (tr, ()) =
           ((tr @ [BaseInit ident, NewClient, CreateHostConfig True nm binds,
                   CreateContainer img cmd (ident @ ''_'' @ str_int self_id) True True hc], ()),
            Inr ?node) \<and>
         container_id ?node = cid \<and> host_config ?node = hc \<and> node_image ?node = img \<and>
         command ?node = cmd \<and> node_identifier ?node = ident \<and> pid ?node = PNone"
    by simp
  then show "\<exists>node.
         DockerNode_init rt self_id ident img cmd binds nm (tr, ()) =
           ((tr @ [BaseInit ident, NewClient, CreateHostConfig True nm binds,
                   CreateContainer img cmd (ident @ ''_'' @ str_int self_id) True True hc], ()),
            Inr node) \<and>
         container_id node = cid \<and> host_config node = hc \<and> node_image node = img \<and>
         command node = cmd \<and> node_identifier node = ident \<and> pid node = PNone"
    by (rule exI)
qed

theorem init_creates_container_witness:
  "DockerNode_init docker_ok 140234 ''n1'' ''ubuntu'' ''bash'' PNone ''none'' ([], ()) =
     (([BaseInit ''n1'', NewClient, CreateHostConfig True ''none'' PNone,
        CreateContainer ''ubuntu'' ''bash'' ''n1_140234'' True True
          (PDict [(''Privileged'', PBool True), (''NetworkMode'', PStr ''none''),
                  (''Binds'', PNone)])], ()),
      Inr (n1\<lparr>ports := []\<rparr>)) \<and>
   (\<exists>r. subscript r ''Id'' = Inr (container_id (n1\<lparr>ports := []\<rparr>)) \<and>
        pid (n1\<lparr>ports := []\<rparr>) = PNone) \<and>
   (\<exists>node.
      DockerNode_init docker_ok 140234 ''n1'' ''ubuntu'' ''bash'' PNone ''none'' ([], ()) =
        (([] @ [BaseInit ''n1'', NewClient, CreateHostConfig True ''none'' PNone,
           CreateContainer ''ubuntu'' ''bash'' (''n1'' @ ''_'' @ str_int 140234) True True
             (PDict [(''Privileged'', PBool True), (''NetworkMode'', PStr ''none''),
                     (''Binds'', PNone)])], ()),
         Inr node) \<and>
      container_id node = PStr ''c0ffee'' \<and>
      host_config node = PDict [(''Privileged'', PBool True), (''NetworkMode'', PStr ''none''),
                                (''Binds'', PNone)] \<and>
      node_image node = ''ubuntu'' \<and> command node = ''bash'' \<and>
      node_identifier node = ''n1'' \<and> pid node = PNone)"
proof -
  let ?hc = "PDict [(''Privileged'', PBool True), (''NetworkMode'', PStr ''none''),
                    (''Binds'', PNone)]"
  have ok: "docker_ok [] (BaseInit ''n1'') = Inr PNone \<and>
      docker_ok ([] @ [BaseInit ''n1'']) NewClient = Inr PNone \<and>
      docker_ok ([] @ [BaseInit ''n1'', NewClient]) (CreateHostConfig True ''none'' PNone) = Inr ?hc \<and>
      docker_ok ([] @ [BaseInit ''n1'', NewClient, CreateHostConfig True ''none'' PNone])
         (CreateContainer ''ubuntu'' ''bash'' (''n1'' @ ''_'' @ str_int 140234) True True ?hc)
        = Inr (PDict [(''Id'', PStr ''c0ffee'')]) \<and>
      subscript (PDict [(''Id'', PStr ''c0ffee'')]) ''Id'' = Inr (PStr ''c0ffee'')"
    by simp
  note returns = init_creates_container
    [of docker_ok 140234 "''n1''" "''ubuntu''" "''bash''" PNone "''none''" "[]",
      THEN conjunct2, THEN conjunct2, THEN conjunct2, rule_format, OF ok]
  have name: "str_int 140234 = ''140234''"
    by (simp add: str_int_def digits.simps digit_char_def char_of_eq_iff)
  have run: "DockerNode_init docker_ok 140234 ''n1'' ''ubuntu'' ''bash'' PNone ''none'' ([], ()) =
     (([BaseInit ''n1'', NewClient, CreateHostConfig True ''none'' PNone,
        CreateContainer ''ubuntu'' ''bash'' ''n1_140234'' True True
          (PDict [(''Privileged'', PBool True), (''NetworkMode'', PStr ''none''),
                  (''Binds'', PNone)])], ()),
      Inr (n1\<lparr>ports := []\<rparr>))"
    by (simp add: DockerNode_init_def run_simps ret_def container_name_def name n1_def
        base_ports_def)
  from init_creates_container
    [of docker_ok 140234 "''n1''" "''ubuntu''" "''bash''" PNone "''none''" "[]",
      THEN conjunct1, rule_format, OF run]
  have "\<exists>r. subscript r ''Id'' = Inr (container_id (n1\<lparr>ports := []\<rparr>)) \<and>
        pid (n1\<lparr>ports := []\<rparr>) = PNone"
    by (elim exE conjE, intro exI conjI) assumption+
  with run returns show ?thesis by (intro conjI)
qed

section \<open>Frame: what a call leaves untouched\<close>

lemma start_node: "\<exists>p. snd (fst (start rt (tr, s))) = s\<lparr>pid := p\<rparr>"
proof (cases "snd (start rt (tr, s))")
  case (Inl e)
  then have "snd (fst (start rt (tr, s))) = s"
    by (auto simp: start_def run_simps modify_self_def split: sum.splits)
  then have "snd (fst (start rt (tr, s))) = s\<lparr>pid := pid s\<rparr>" by simp
  then show ?thesis ..
next
  case (Inr v)
  then show ?thesis
    by (auto simp: start_def run_simps modify_self_def split: sum.splits)
qed

lemma start_failure_node: "snd (start rt (tr, s)) = Inl e \<Longrightarrow> snd (fst (start rt (tr, s))) = s"
  by (auto simp: start_def run_simps modify_self_def split: sum.splits)

lemma stop_node: "snd (fst (stop rt (tr, s))) = s"
  by (simp add: stop_def run_simps ret_def split: sum.splits)

lemma port_state_node: "snd (fst (port_state rt l st (tr, s))) = s"
  by (simp add: port_state_run split: option.splits)

lemma pause_node: "snd (fst (pause rt (tr, s))) = s"
proof -
  obtain tr1 s1 r1 where loop: "for_ports rt False (map fst (ports s)) (tr, s) = ((tr1, s1), r1)"
    by (metis surj_pair)
  have step: "bnd (for_ports rt False (map fst (ports s))) f (tr, s) =
      (case r1 of Inl e \<Rightarrow> ((tr1, s1), Inl e) | Inr v \<Rightarrow> f v (tr1, s1))"
    for f :: "pyval \<Rightarrow> (docker_node, pyval) prog"
    using loop by (simp add: bnd_def split: sum.splits)
  from for_ports_node [of rt False "map fst (ports s)" tr s] loop have "s1 = s" by simp
  then show ?thesis
    by (cases r1) (simp_all add: pause_def bnd_get_self step bnd_invoke ret_def split: sum.splits)
qed

lemma unpause_node: "snd (fst (unpause rt (tr, s))) = s"
proof (cases "rt tr (Unpause (container_id s))")
  case (Inl e)
  then show ?thesis by (simp add: unpause_def run_simps)
next
  case (Inr v)
  let ?tr = "tr @ [Unpause (container_id s)]"
  obtain tr1 s1 r1 where loop: "for_ports rt True (map fst (ports s)) (?tr, s) = ((tr1, s1), r1)"
    by (metis surj_pair)
  have step: "bnd (for_ports rt True (map fst (ports s))) f (?tr, s) =
      (case r1 of Inl e \<Rightarrow> ((tr1, s1), Inl e) | Inr v \<Rightarrow> f v (tr1, s1))"
    for f :: "pyval \<Rightarrow> (docker_node, pyval) prog"
    using loop by (simp add: bnd_def split: sum.splits)
  from for_ports_node [of rt True "map fst (ports s)" ?tr s] loop have "s1 = s" by simp
  with Inr show ?thesis
    by (cases r1) (simp_all add: unpause_def run_simps step ret_def)
qed

lemma method_node: "m \<noteq> M_start \<Longrightarrow> snd (fst (call_method rt m (tr, s))) = s"
  by (cases m)
    (simp_all add: stop_node port_state_node pause_node unpause_node notify_add_biport_def
      notify_add_bilink_def notify_post_build_def ret_def)

lemma method_failure_node:
  "snd (call_method rt m (tr, s)) = Inl e \<Longrightarrow> snd (fst (call_method rt m (tr, s))) = s"
  by (cases "m = M_start") (auto simp: start_failure_node method_node)

lemma method_fields:
  "\<exists>p. snd (fst (call_method rt m (tr, s))) = s\<lparr>pid := p\<rparr>"
proof (cases "m = M_start")
  case True
  then show ?thesis by (simp add: start_node)
next
  case False
  then have "snd (fst (call_method rt m (tr, s))) = s\<lparr>pid := pid s\<rparr>"
    by (simp add: method_node)
  then show ?thesis ..
qed

lemma step_fields:
  "\<exists>p ps. snd (run_step rt x (tr, s)) = s\<lparr>pid := p, ports := ps\<rparr>"
proof (cases x)
  case (Invoke m)
  from method_fields [of rt m tr s] obtain p
    where "snd (fst (call_method rt m (tr, s))) = s\<lparr>pid := p\<rparr>" ..
  then have "snd (run_step rt x (tr, s)) = s\<lparr>pid := p, ports := ports s\<rparr>"
    using Invoke by simp
  then show ?thesis by blast
next
  case (RecordPort l i)
  then have "snd (run_step rt x (tr, s)) = s\<lparr>pid := pid s, ports := AList.update l i (ports s)\<rparr>"
    by simp
  then show ?thesis by blast
qed

lemma steps_fields:
  "\<exists>p ps. snd (run_steps rt xs (tr, s)) = s\<lparr>pid := p, ports := ps\<rparr>"
proof (induction xs arbitrary: tr s)
  case Nil
  have "snd (run_steps rt [] (tr, s)) = s\<lparr>pid := pid s, ports := ports s\<rparr>" by simp
  then show ?case by blast
next
  case (Cons x xs)
  obtain tr1 s1 where one: "run_step rt x (tr, s) = (tr1, s1)"
    by (metis surj_pair)
  with step_fields [of rt x tr s] obtain p ps where s1: "s1 = s\<lparr>pid := p, ports := ps\<rparr>"
    by auto
  from Cons.IH [of tr1 s1] obtain p' ps'
    where "snd (run_steps rt xs (tr1, s1)) = s1\<lparr>pid := p', ports := ps'\<rparr>" by blast
  with one s1 have "snd (run_steps rt (x # xs) (tr, s)) = s\<lparr>pid := p', ports := ps'\<rparr>"
    by simp
  then show ?case by blast
qed

lemma step_pid:
  "x \<noteq> Invoke M_start \<Longrightarrow> pid (snd (run_step rt x (tr, s))) = pid s"
  by (cases x) (auto simp: method_node)

lemma steps_pid:
  "Invoke M_start \<notin> set xs \<Longrightarrow> pid (snd (run_steps rt xs (tr, s))) = pid s"
proof (induction xs arbitrary: tr s)
  case Nil
  show ?case by simp
next
  case (Cons x xs)
  obtain tr1 s1 where one: "run_step rt x (tr, s) = (tr1, s1)"
    by (metis surj_pair)
  from Cons.prems have "x \<noteq> Invoke M_start" and rest: "Invoke M_start \<notin> set xs"
    by auto
  with step_pid [of x rt tr s] one have "pid s1 = pid s" by simp
  with Cons.IH [OF rest, of tr1 s1] one show ?case by simp
qed

section \<open>Failures propagate\<close>

lemma no_snoc_prefix: "prefix tr h \<Longrightarrow> prefix (h @ [c]) tr \<Longrightarrow> False"
proof -
  assume "prefix tr h" and "prefix (h @ [c]) tr"
  then have "prefix (h @ [c]) h" by (rule prefix_order.trans [rotated])
  then have "length (h @ [c]) \<le> length h" by (rule prefix_length_le)
  then show False by simp
qed

lemma fails_fast_silent:
  assumes "\<And>tr s. fst (fst (p (tr, s))) = tr"
  shows "fails_fast rt p"
  unfolding fails_fast_def using assms no_snoc_prefix by fastforce

lemma fails_fast_ret: "fails_fast rt (ret v)"
  by (rule fails_fast_silent) (simp add: ret_def)

lemma fails_fast_lift: "fails_fast rt (lift r)"
  by (rule fails_fast_silent) (simp add: lift_def)

lemma fails_fast_get_self: "fails_fast rt get_self"
  by (rule fails_fast_silent) (simp add: get_self_def)

lemma fails_fast_modify_self: "fails_fast rt (modify_self f)"
  by (rule fails_fast_silent) (simp add: modify_self_def)

lemma fails_fast_invoke: "fails_fast rt (invoke rt c0)"
  unfolding fails_fast_def
proof (intro allI conjI impI)
  fix tr :: trace and s :: 'a
  show "prefix tr (fst (fst (invoke rt c0 (tr, s))))"
    by (simp add: invoke_def)
next
  fix tr :: trace and s :: 'a and h c e
  assume a: "prefix tr h \<and> prefix (h @ [c]) (fst (fst (invoke rt c0 (tr, s)))) \<and> rt h c = Inl e"
  then have "prefix (h @ [c]) (tr @ [c0])" by (simp add: invoke_def)
  then have "h @ [c] = tr @ [c0] \<or> prefix (h @ [c]) tr" by simp
  moreover from a have "\<not> prefix (h @ [c]) tr"
    using no_snoc_prefix [of tr h c] by blast
  ultimately have "h @ [c] = tr @ [c0]" by blast
  then have "h = tr" "c = c0" by simp_all
  with a show "snd (invoke rt c0 (tr, s)) = Inl e" by (simp add: invoke_def)
  from \<open>h = tr\<close> \<open>c = c0\<close> show "fst (fst (invoke rt c0 (tr, s))) = h @ [c]"
    by (simp add: invoke_def)
qed

lemma fails_fast_bnd:
  assumes m: "fails_fast rt m" and f: "\<And>v. fails_fast rt (f v)"
  shows "fails_fast rt (bnd m f)"
  unfolding fails_fast_def
proof (intro allI)
  fix tr :: trace and s :: 'a
  obtain tr1 s1 r1 where run: "m (tr, s) = ((tr1, s1), r1)"
    by (metis surj_pair)
  from m have p1: "prefix tr tr1"
    and q1: "\<And>h c e. prefix tr h \<Longrightarrow> prefix (h @ [c]) tr1 \<Longrightarrow> rt h c = Inl e \<Longrightarrow>
               r1 = Inl e \<and> tr1 = h @ [c]"
    unfolding fails_fast_def using run
    by (metis fst_conv, metis fst_conv snd_conv)
  show "prefix tr (fst (fst (bnd m f (tr, s)))) \<and>
        (\<forall>h c e. prefix tr h \<and> prefix (h @ [c]) (fst (fst (bnd m f (tr, s)))) \<and> rt h c = Inl e \<longrightarrow>
           snd (bnd m f (tr, s)) = Inl e \<and> fst (fst (bnd m f (tr, s))) = h @ [c])"
  proof (cases r1)
    case (Inl e1)
    with run have "bnd m f (tr, s) = ((tr1, s1), Inl e1)"
      by (simp add: bnd_def)
    with p1 q1 Inl show ?thesis by auto
  next
    case (Inr v)
    with run have b: "bnd m f (tr, s) = f v (tr1, s1)"
      by (simp add: bnd_def)
    let ?tr2 = "fst (fst (f v (tr1, s1)))"
    from f [of v] have p2: "prefix tr1 ?tr2"
      and q2: "\<And>h c e. prefix tr1 h \<Longrightarrow> prefix (h @ [c]) ?tr2 \<Longrightarrow> rt h c = Inl e \<Longrightarrow>
               snd (f v (tr1, s1)) = Inl e \<and> ?tr2 = h @ [c]"
      unfolding fails_fast_def by blast+
    have "snd (f v (tr1, s1)) = Inl e \<and> ?tr2 = h @ [c]"
      if a: "prefix tr h" "prefix (h @ [c]) ?tr2" "rt h c = Inl e" for h c e
    proof -
      from p2 a(2) have "prefix tr1 (h @ [c]) \<or> prefix (h @ [c]) tr1"
        by (rule prefix_same_cases)
      moreover have False if "prefix (h @ [c]) tr1"
        using q1 [OF a(1) that a(3)] Inr by simp
      ultimately have "prefix tr1 (h @ [c])" by blast
      then have "tr1 = h @ [c] \<or> prefix tr1 h" by simp
      moreover have False if "tr1 = h @ [c]"
        using q1 [OF a(1) _ a(3)] that Inr by simp
      ultimately have "prefix tr1 h" by blast
      from q2 [OF this a(2) a(3)] show ?thesis .
    qed
    with p1 p2 b show ?thesis
      using prefix_order.trans by auto
  qed
qed

lemmas fails_fast_intros =
  fails_fast_bnd fails_fast_invoke fails_fast_ret fails_fast_lift fails_fast_get_self
  fails_fast_modify_self

lemma fails_fast_port_state: "fails_fast rt (port_state rt l st)"
  unfolding port_state_def by (intro fails_fast_intros)

lemma fails_fast_for_ports: "fails_fast rt (for_ports rt st ls)"
  by (induction ls) (auto intro: fails_fast_intros fails_fast_port_state)

lemma fails_fast_init: "fails_fast rt (DockerNode_init rt self_id ident img cmd binds nm)"
  unfolding DockerNode_init_def by (intro fails_fast_intros)

lemma fails_fast_method: "fails_fast rt (call_method rt m)"
proof (cases m)
  case M_start
  then show ?thesis by (simp add: start_def) (intro fails_fast_intros)
next
  case M_stop
  then show ?thesis by (simp add: stop_def) (intro fails_fast_intros)
next
  case M_pause
  then show ?thesis
    by (simp add: pause_def) (intro fails_fast_intros fails_fast_for_ports)
next
  case M_unpause
  then show ?thesis
    by (simp add: unpause_def) (intro fails_fast_intros fails_fast_for_ports)
qed (simp_all add: fails_fast_port_state fails_fast_ret notify_add_biport_def
      notify_add_bilink_def notify_post_build_def)

text \<open>
  C8. No operation catches or translates a failure of a collaborator: when a call that a
  method or the constructor issued raised, the operation ends with that very exception,
  the failing call is the last one it issued, and the node is as it was before the
  operation (no method writes the node before its last runtime call).
\<close>

theorem failures_propagate:
  "(prefix tr h \<and> prefix (h @ [c]) (fst (fst (call_method rt m (tr, self)))) \<and> rt h c = Inl e \<longrightarrow>
      call_method rt m (tr, self) = ((h @ [c], self), Inl e)) \<and>
   (prefix tr h \<and>
    prefix (h @ [c]) (fst (fst (DockerNode_init rt self_id ident img cmd binds nm (tr, ())))) \<and>
    rt h c = Inl e \<longrightarrow>
      DockerNode_init rt self_id ident img cmd binds nm (tr, ()) = ((h @ [c], ()), Inl e))"
proof (intro conjI impI)
  assume a: "prefix tr h \<and> prefix (h @ [c]) (fst (fst (call_method rt m (tr, self)))) \<and> rt h c = Inl e"
  from fails_fast_method [of rt m] a
  have r: "snd (call_method rt m (tr, self)) = Inl e"
    and t: "fst (fst (call_method rt m (tr, self))) = h @ [c]"
    unfolding fails_fast_def by blast+
  from method_failure_node [OF r] have "snd (fst (call_method rt m (tr, self))) = self" .
  with r t show "call_method rt m (tr, self) = ((h @ [c], self), Inl e)"
    by (metis prod.collapse)
next
  let ?p = "DockerNode_init rt self_id ident img cmd binds nm"
  assume a: "prefix tr h \<and> prefix (h @ [c]) (fst (fst (?p (tr, ())))) \<and> rt h c = Inl e"
  from fails_fast_init [of rt self_id ident img cmd binds nm] a
  have r: "snd (?p (tr, ())) = Inl e" and t: "fst (fst (?p (tr, ()))) = h @ [c]"
    unfolding fails_fast_def by blast+
  then show "?p (tr, ()) = ((h @ [c], ()), Inl e)"
    by (metis prod.collapse old.unit.exhaust)
qed

theorem failures_propagate_witness:
  "call_method (failing_at (Shell ''ip link set dev eth2 down'' ''bash'') (External ''no bash''))
       M_pause ([], n1) =
     (([Shell ''ip link set dev eth1 down'' ''bash''] @ [Shell ''ip link set dev eth2 down'' ''bash''],
       n1), Inl (External ''no bash'')) \<and>
   DockerNode_init (failing_at NewClient (External ''no daemon'')) 7 ''n1'' ''ubuntu'' ''bash''
       PNone ''none'' ([], ()) =
     (([BaseInit ''n1''] @ [NewClient], ()), Inl (External ''no daemon''))"
proof -
  let ?rt = "failing_at (Shell ''ip link set dev eth2 down'' ''bash'') (External ''no bash'')"
  let ?h = "[Shell ''ip link set dev eth1 down'' ''bash'']"
  let ?c = "Shell ''ip link set dev eth2 down'' ''bash''"
  have tr: "fst (fst (call_method ?rt M_pause ([], n1))) = ?h @ [?c]"
    by (simp add: pause_def bnd_def get_self_def invoke_def port_state_def lift_def
        ip_link_cmd_def ret_def n1_def failing_at_def)
  have hyp: "prefix [] ?h \<and> prefix (?h @ [?c]) (fst (fst (call_method ?rt M_pause ([], n1)))) \<and>
      ?rt ?h ?c = Inl (External ''no bash'')"
    unfolding tr by (simp add: failing_at_def)
  let ?rt' = "failing_at NewClient (External ''no daemon'')"
  let ?p = "DockerNode_init ?rt' 7 ''n1'' ''ubuntu'' ''bash'' PNone ''none''"
  have tr': "fst (fst (?p ([], ()))) = [BaseInit ''n1''] @ [NewClient]"
    by (simp add: DockerNode_init_def bnd_invoke failing_at_def)
  have hyp': "prefix [] [BaseInit ''n1''] \<and> prefix ([BaseInit ''n1''] @ [NewClient]) (fst (fst (?p ([], ())))) \<and>
      ?rt' [BaseInit ''n1''] NewClient = Inl (External ''no daemon'')"
    unfolding tr' by (simp add: failing_at_def)
  from failures_propagate [of "[]" ?h ?c ?rt M_pause n1 "External ''no bash''", THEN conjunct1,
      rule_format, OF hyp]
    failures_propagate [of "[]" "[BaseInit ''n1'']" NewClient ?rt' _ _ "External ''no daemon''"
      7 "''n1''" "''ubuntu''" "''bash''" PNone "''none''", THEN conjunct2, rule_format, OF hyp']
  show ?thesis by (intro conjI)
qed

section \<open>Fields written once\<close>

text \<open>
  C9. No method (the notification hooks, start, stop, pause, unpause, port_state) changes
  the container id, the image, the command or the host configuration of the node,
  whether it returns or raises; so they keep the values of construction through any
  sequence of method calls and registry updates by the framework.
\<close>

theorem container_id_never_reassigned:
  "container_id (snd (fst (call_method rt m (tr, self)))) = container_id self \<and>
   node_image (snd (fst (call_method rt m (tr, self)))) = node_image self \<and>
   command (snd (fst (call_method rt m (tr, self)))) = command self \<and>
   host_config (snd (fst (call_method rt m (tr, self)))) = host_config self \<and>
   container_id (snd (run_steps rt steps (tr, self))) = container_id self \<and>
   node_image (snd (run_steps rt steps (tr, self))) = node_image self \<and>
   command (snd (run_steps rt steps (tr, self))) = command self \<and>
   host_config (snd (run_steps rt steps (tr, self))) = host_config self"
proof -
  from method_fields [of rt m tr self] obtain p
    where one: "snd (fst (call_method rt m (tr, self))) = self\<lparr>pid := p\<rparr>" ..
  from steps_fields [of rt steps tr self] obtain p' ps
    where many: "snd (run_steps rt steps (tr, self)) = self\<lparr>pid := p', ports := ps\<rparr>" by blast
  show ?thesis unfolding one many by simp
qed

theorem container_id_never_reassigned_witness:
  "container_id (snd (run_steps docker_ok
      [Invoke M_start, RecordPort ''p3'' ''eth3'', Invoke M_pause, Invoke M_unpause,
       Invoke (M_port_state ''p9'' True), Invoke M_stop] ([], n1))) = PStr ''c0ffee''"
  using container_id_never_reassigned [of docker_ok M_start "[]" n1
      "[Invoke M_start, RecordPort ''p3'' ''eth3'', Invoke M_pause, Invoke M_unpause,
        Invoke (M_port_state ''p9'' True), Invoke M_stop]"]
  by (simp add: n1_def)

text \<open>
  C10. \<^verbatim>\<open>stop\<close> leaves the node, and so its pid, unchanged whether it returns or raises;
  every method other than \<^verbatim>\<open>start\<close> leaves the pid unchanged, so through any sequence
  of calls without a start the pid keeps the value it had; and construction leaves the
  pid unset.
\<close>

theorem pid_written_only_by_start:
  "snd (fst (stop rt (tr, self))) = self \<and>
   (m \<noteq> M_start \<longrightarrow> pid (snd (fst (call_method rt m (tr, self)))) = pid self) \<and>
   (Invoke M_start \<notin> set steps \<longrightarrow> pid (snd (run_steps rt steps (tr, self))) = pid self) \<and>
   (\<forall>tr' u node.
      DockerNode_init rt self_id ident img cmd binds nm (tr, ()) = ((tr', u), Inr node) \<longrightarrow>
      pid node = PNone)"
proof (intro conjI allI impI)
  show "snd (fst (stop rt (tr, self))) = self" by (rule stop_node)
next
  assume "m \<noteq> M_start"
  then show "pid (snd (fst (call_method rt m (tr, self)))) = pid self"
    by (simp add: method_node)
next
  assume "Invoke M_start \<notin> set steps"
  then show "pid (snd (run_steps rt steps (tr, self))) = pid self" by (rule steps_pid)
next
  fix tr' u node
  assume "DockerNode_init rt self_id ident img cmd binds nm (tr, ()) = ((tr', u), Inr node)"
  from init_success [OF this] show "pid node = PNone" by blast
qed

theorem pid_written_only_by_start_witness:
  "pid (snd (fst (stop (failing_at (Wait (PStr ''c0ffee'')) (External ''gone''))
                    ([], n1\<lparr>pid := PInt 4242\<rparr>)))) = PInt 4242 \<and>
   pid (snd (fst (call_method docker_ok M_pause ([], n1\<lparr>pid := PInt 4242\<rparr>)))) = PInt 4242 \<and>
   pid (snd (run_steps docker_ok
               [Invoke M_pause, RecordPort ''p3'' ''eth3'', Invoke M_unpause, Invoke M_stop]
               ([], n1\<lparr>pid := PInt 4242\<rparr>))) = PInt 4242 \<and>
   pid (n1\<lparr>ports := []\<rparr>) = PNone"
proof -
  let ?s = "n1\<lparr>pid := PInt 4242\<rparr>"
  let ?steps = "[Invoke M_pause, RecordPort ''p3'' ''eth3'', Invoke M_unpause, Invoke M_stop]"
  have name: "str_int 140234 = ''140234''"
    by (simp add: str_int_def digits.simps digit_char_def char_of_eq_iff)
  have run: "DockerNode_init docker_ok 140234 ''n1'' ''ubuntu'' ''bash'' PNone ''none'' ([], ()) =
     (([BaseInit ''n1'', NewClient, CreateHostConfig True ''none'' PNone,
        CreateContainer ''ubuntu'' ''bash'' ''n1_140234'' True True
          (PDict [(''Privileged'', PBool True), (''NetworkMode'', PStr ''none''),
                  (''Binds'', PNone)])], ()),
      Inr (n1\<lparr>ports := []\<rparr>))"
    by (simp add: DockerNode_init_def run_simps ret_def container_name_def name n1_def
        base_ports_def)
  have ne: "M_pause \<noteq> M_start" by simp
  have nostart: "Invoke M_start \<notin> set ?steps" by simp
  note a = pid_written_only_by_start
    [of "failing_at (Wait (PStr ''c0ffee'')) (External ''gone'')" "[]" ?s, THEN conjunct1]
  note b = pid_written_only_by_start
    [of docker_ok "[]" ?s M_pause, THEN conjunct2, THEN conjunct1, rule_format, OF ne]
  note c = pid_written_only_by_start
    [of docker_ok "[]" ?s _ ?steps, THEN conjunct2, THEN conjunct2, THEN conjunct1,
      rule_format, OF nostart]
  note d = pid_written_only_by_start
    [of docker_ok "[]" _ _ _ 140234 "''n1''" "''ubuntu''" "''bash''" PNone "''none''",
      THEN conjunct2, THEN conjunct2, THEN conjunct2, rule_format, OF run]
  have p: "pid ?s = PInt 4242" by simp
  show ?thesis
    unfolding a b c p using d by (intro conjI refl)
qed

end
